theory Spec2Isabelle
  imports Main "HOL-Library.Multiset"
begin

section \<open>Data model\<close>

text \<open>
  Structured data as the docstring parser produces it (a YAML document). Mappings are
  association lists in insertion order, as Python dictionaries are; the keys that matter
  here (HTTP verbs, top-level metadata keys) are strings.
\<close>

datatype yaml =
    YNull
  | YBool bool
  | YInt int
  | YStr string
  | YList "yaml list"
  | YDict "(string \<times> yaml) list"

type_synonym dict = "(string \<times> yaml) list"

text \<open>
  What the module reads of an attribute of the handler class: its \<open>__doc__\<close> and the
  parameter names \<open>inspect.signature\<close> reports (\<open>None\<close> when \<open>inspect.signature\<close>
  raises, as it does on an attribute that is not callable).
\<close>

record py_method =
  method_doc :: "string option"
  method_params :: "string list option"

text \<open>
  A handler class: its own \<open>__doc__\<close> and its attributes by name. \<open>getattr\<close> without
  a default raises \<open>AttributeError\<close> on a name that is not there.
\<close>

record handler =
  handler_doc :: "string option"
  handler_attrs :: "(string \<times> py_method) list"

text \<open>
  A tornado \<open>URLSpec\<close>, reduced to what the module reads: \<open>regex.groups\<close>,
  \<open>regex.groupindex\<close> (group name to group index, in the order the mapping iterates),
  the reverse template \<open>_path\<close> and \<open>handler_class\<close>. tornado sets \<open>_path\<close> to
  \<open>None\<close> for a pattern it cannot reverse (one with a non-capturing group, say), so
  the template is optional. Both branches of the
  \<open>try\<close>/\<open>except AttributeError\<close> at the top of \<open>tornadopath2openapi\<close> read the same
  two values, from \<open>urlspec.matcher\<close> or from \<open>urlspec\<close> itself.
\<close>

record urlspec =
  regex_groups :: nat
  regex_groupindex :: "(string \<times> nat) list"
  path_tpl :: "string option"
  handler_class :: handler

datatype error =
    AssertionError
  | AttributeError
  | TypeError
  | ValueError
  | SignatureError
  | URLSpecError
  | APISpecError urlspec

definition getattr :: "handler \<Rightarrow> string \<Rightarrow> error + py_method" where
  "getattr h name = (case map_of (handler_attrs h) name of
      None \<Rightarrow> Inl AttributeError
    | Some m \<Rightarrow> Inr m)"

section \<open>Python's printf-style formatting of a template with a tuple of strings\<close>

text \<open>
  \<open>path_tpl % params\<close>, where \<open>params\<close> is a tuple whose items are all \<open>str\<close>.
  Characters are code points below 256. A directive is \<open>%\<close>, flags, a width, a
  precision, a length modifier and a conversion character; \<open>%%\<close> is a literal percent
  sign. Memory exhaustion on a large width is not modelled.
\<close>

definition bsl :: char where
  "bsl = CHR 0x5C"

definition is_flag :: "char \<Rightarrow> bool" where
  "is_flag c = (c \<in> set ''-+ #0'')"

definition is_digit :: "char \<Rightarrow> bool" where
  "is_digit c = (c \<in> set ''0123456789'')"

definition digits_val :: "string \<Rightarrow> int" where
  "digits_val ds = foldl (\<lambda>n c. 10 * n + (of_char c - 48)) 0 ds"

definition PY_SSIZE_T_MAX :: int where
  "PY_SSIZE_T_MAX = 9223372036854775807"

definition INT_MAX :: int where
  "INT_MAX = 2147483647"

record conv_spec =
  ljust :: bool
  width :: "int option"
  prec :: "int option"
  conv :: char

text \<open>The precision part: nothing, or a dot followed by \<open>*\<close> or by digits (none is 0).\<close>

definition parse_prec :: "string \<Rightarrow> error + (int option \<times> string)" where
  "parse_prec cs =
     (case cs of
        [] \<Rightarrow> Inr (None, [])
      | c # r \<Rightarrow>
          if c \<noteq> CHR ''.'' then Inr (None, cs)
          else if r \<noteq> [] \<and> hd r = CHR ''*'' then Inl TypeError
          else if digits_val (takeWhile is_digit r) > INT_MAX then Inl ValueError
          else Inr (Some (digits_val (takeWhile is_digit r)), dropWhile is_digit r))"

text \<open>
  The text after a \<open>%\<close> that is not followed by another \<open>%\<close>. A mapping key
  \<open>%(name)\<close> needs a mapping on the right (\<open>TypeError\<close> with a tuple); \<open>*\<close> takes an
  \<open>int\<close> from the tuple (\<open>TypeError\<close> whether the tuple is exhausted or gives a
  \<open>str\<close>); a directive cut off by the end of the template is \<open>ValueError\<close>.
\<close>

definition parse_spec :: "string \<Rightarrow> error + (conv_spec \<times> string)" where
  "parse_spec cs =
     (if cs \<noteq> [] \<and> hd cs = CHR ''('' then Inl TypeError
      else
        let fl = takeWhile is_flag cs; r1 = dropWhile is_flag cs in
        if r1 \<noteq> [] \<and> hd r1 = CHR ''*'' then Inl TypeError
        else
          let wd = takeWhile is_digit r1; r2 = dropWhile is_digit r1 in
          if digits_val wd > PY_SSIZE_T_MAX then Inl ValueError
          else
            (case parse_prec r2 of
               Inl e \<Rightarrow> Inl e
             | Inr (p, r3) \<Rightarrow>
                 (case (if r3 \<noteq> [] \<and> hd r3 \<in> set ''hlL'' then tl r3 else r3) of
                    [] \<Rightarrow> Inl ValueError
                  | c # rest \<Rightarrow>
                      Inr (\<lparr>ljust = (CHR ''-'' \<in> set fl),
                            width = (if wd = [] then None else Some (digits_val wd)),
                            prec = p, conv = c\<rparr>, rest))))"

definition hex2 :: "char \<Rightarrow> string" where
  "hex2 c = [''0123456789abcdef'' ! ((of_char c :: nat) div 16),
             ''0123456789abcdef'' ! ((of_char c :: nat) mod 16)]"

definition printable :: "char \<Rightarrow> bool" where
  "printable c = (let n = (of_char c :: nat) in
      (32 \<le> n \<and> n < 127) \<or> (161 \<le> n \<and> n \<noteq> 173))"

definition repr_char :: "bool \<Rightarrow> char \<Rightarrow> char \<Rightarrow> string" where
  "repr_char ascii_only q c =
     (if c = q \<or> c = bsl then [bsl, c]
      else if c = CHR 0x09 then [bsl, CHR ''t'']
      else if c = CHR 0x0A then [bsl, CHR ''n'']
      else if c = CHR 0x0D then [bsl, CHR ''r'']
      else if printable c \<and> (\<not> ascii_only \<or> (of_char c :: nat) < 128) then [c]
      else bsl # CHR ''x'' # hex2 c)"

definition quote_of :: "string \<Rightarrow> char" where
  "quote_of s = (if CHR 0x27 \<in> set s \<and> CHR 0x22 \<notin> set s then CHR 0x22 else CHR 0x27)"

definition py_repr :: "string \<Rightarrow> string" where
  "py_repr s = quote_of s # concat (map (repr_char False (quote_of s)) s) @ [quote_of s]"

definition py_ascii :: "string \<Rightarrow> string" where
  "py_ascii s = quote_of s # concat (map (repr_char True (quote_of s)) s) @ [quote_of s]"

definition pad :: "conv_spec \<Rightarrow> string \<Rightarrow> string" where
  "pad sp s =
     (case width sp of
        None \<Rightarrow> s
      | Some w \<Rightarrow>
          if ljust sp then s @ replicate (nat w - length s) CHR '' ''
          else replicate (nat w - length s) CHR '' '' @ s)"

text \<open>One directive applied to one \<open>str\<close> item of the tuple.\<close>

definition convert :: "conv_spec \<Rightarrow> string \<Rightarrow> error + string" where
  "convert sp a =
     (if conv sp \<in> set ''sra'' then
        (let s = (if conv sp = CHR ''s'' then a
                  else if conv sp = CHR ''r'' then py_repr a
                  else py_ascii a)
         in Inr (pad sp (case prec sp of None \<Rightarrow> s | Some p \<Rightarrow> take (nat p) s)))
      else if conv sp \<in> set ''diouxXeEfFgG'' then Inl TypeError
      else if conv sp = CHR ''c'' then
        (if length a = 1 then Inr (pad sp a) else Inl TypeError)
      else Inl ValueError)"

lemma parse_prec_length:
  "parse_prec cs = Inr (p, r) \<Longrightarrow> length r \<le> length cs"
  by (auto simp: parse_prec_def split: list.splits if_splits
           intro: le_trans [OF length_dropWhile_le])

lemma parse_spec_length:
  assumes "parse_spec cs = Inr (sp, rest)"
  shows "length rest < length cs"
proof -
  let ?r1 = "dropWhile is_flag cs"
  let ?r2 = "dropWhile is_digit ?r1"
  from assms obtain p r3 where pp: "parse_prec ?r2 = Inr (p, r3)"
    and r: "(if r3 \<noteq> [] \<and> hd r3 \<in> set ''hlL'' then tl r3 else r3) = conv sp # rest"
    by (auto simp: parse_spec_def Let_def split: if_splits sum.splits list.splits)
  have "length r3 \<le> length ?r2" using pp by (rule parse_prec_length)
  also have "\<dots> \<le> length ?r1" by (rule length_dropWhile_le)
  also have "\<dots> \<le> length cs" by (rule length_dropWhile_le)
  finally have le: "length r3 \<le> length cs" .
  have "length rest < length r3"
    using r by (cases r3) (auto split: if_splits)
  with le show ?thesis by simp
qed

text \<open>
  The scan of the template, left to right. A directive takes the next item of the
  tuple (\<open>TypeError\<close> when none is left) before its conversion character is looked at;
  items left over at the end are a \<open>TypeError\<close>.
\<close>

function py_format :: "string \<Rightarrow> string list \<Rightarrow> error + string" where
  "py_format [] args = (if args = [] then Inr [] else Inl TypeError)"
| "py_format (c # cs) args =
     (if c \<noteq> CHR ''%'' then map_sum id ((#) c) (py_format cs args)
      else if cs \<noteq> [] \<and> hd cs = CHR ''%'' then
        map_sum id ((#) CHR ''%'') (py_format (tl cs) args)
      else
        (case parse_spec cs of
           Inl e \<Rightarrow> Inl e
         | Inr (sp, rest) \<Rightarrow>
             (case args of
                [] \<Rightarrow> Inl TypeError
              | a # as \<Rightarrow>
                  (case convert sp a of
                     Inl e \<Rightarrow> Inl e
                   | Inr s \<Rightarrow> map_sum id ((@) s) (py_format rest as)))))"
  by pat_completeness auto
termination
proof (relation "measure (\<lambda>(t, a). length t)")
  fix c :: char and cs :: string and args :: "string list"
    and x2 :: "conv_spec \<times> string" and sp rest and x21 :: string and x22 :: "string list" and s
  assume "parse_spec cs = Inr x2" "(sp, rest) = x2"
  then have "length rest < length cs" by (auto dest: parse_spec_length)
  then show "((rest, x22), c # cs, args) \<in> measure (\<lambda>(t, a). length t)" by simp
qed (auto simp: less_Suc_eq_le)

text \<open>
  Line 86, \<open>path_tpl % params\<close>, on a template that may be \<open>None\<close>: \<open>None\<close> has
  no \<open>%\<close> operator and the expression raises \<open>TypeError\<close>.
\<close>

definition py_mod :: "string option \<Rightarrow> string list \<Rightarrow> error + string" where
  "py_mod tpl params = (case tpl of None \<Rightarrow> Inl TypeError | Some t \<Rightarrow> py_format t params)"

section \<open>The path normalizer\<close>

definition rstrip :: "string \<Rightarrow> string \<Rightarrow> string" where
  "rstrip chars s = rev (dropWhile (\<lambda>c. c \<in> set chars) (rev s))"

text \<open>Lines 89 to 91: the trim of the rendered path.\<close>

definition trailing_trim :: "string \<Rightarrow> string" where
  "trailing_trim path =
     (if count_list path CHR ''/'' > 1 then rstrip ''/?*'' path else path)"

text \<open>Lines 76 to 83: the parameter names, from the named groups or from the method.\<close>

definition path_args :: "urlspec \<Rightarrow> py_method \<Rightarrow> error + string list" where
  "path_args u m =
     (if regex_groupindex u \<noteq> [] then
        Inr (map fst (sort_key snd (regex_groupindex u)))
      else
        (case method_params m of
           None \<Rightarrow> Inl SignatureError
         | Some ps \<Rightarrow> Inr (drop 1 ps)))"

definition brace :: "string \<Rightarrow> string" where
  "brace arg = ''{'' @ arg @ ''}''"

text \<open>
  Lines 75 to 88: the value of \<open>path\<close> before the trim. Without capturing groups it
  is \<open>path_tpl\<close> itself, \<open>None\<close> included.
\<close>

definition render_path :: "urlspec \<Rightarrow> py_method \<Rightarrow> error + string option" where
  "render_path u m =
     (if regex_groups u \<noteq> 0 then
        (case path_args u m of
           Inl e \<Rightarrow> Inl e
         | Inr args \<Rightarrow>
             (case py_mod (path_tpl u) (map brace args) of
                Inl e \<Rightarrow> Inl e
              | Inr path \<Rightarrow> Inr (Some path)))
      else Inr (path_tpl u))"

text \<open>
  The whole function. \<open>path.count\<close> at line 89 raises \<open>AttributeError\<close> when
  \<open>path\<close> is \<open>None\<close>.
\<close>

definition tornadopath2openapi :: "urlspec \<Rightarrow> py_method \<Rightarrow> error + string" where
  "tornadopath2openapi u m =
     (case render_path u m of
        Inl e \<Rightarrow> Inl e
      | Inr None \<Rightarrow> Inl AttributeError
      | Inr (Some path) \<Rightarrow> Inr (trailing_trim path))"

section \<open>Dictionaries\<close>

text \<open>
  \<open>d[k] = v\<close> on a dictionary in insertion order: a key that is there keeps its place,
  a new key goes to the end. \<open>d.update(other)\<close> stores the items of \<open>other\<close> one
  after the other.
\<close>

fun dict_setitem :: "dict \<Rightarrow> string \<Rightarrow> yaml \<Rightarrow> dict" where
  "dict_setitem [] k v = [(k, v)]"
| "dict_setitem ((k', v') # d) k v =
     (if k' = k then (k, v) # d else (k', v') # dict_setitem d k v)"

definition dict_update :: "dict \<Rightarrow> dict \<Rightarrow> dict" where
  "dict_update d other = fold (\<lambda>(k, v) acc. dict_setitem acc k v) other d"

section \<open>The operation extractor and the handler metadata\<close>

text \<open>
  The generator \<open>_operations_from_methods\<close>: the one-entry dictionaries it yields, in
  order, and the exception that ends it, if one does. \<open>PATH_KEYS\<close> and
  \<open>load_yaml_from_docstring\<close> belong to \<open>apispec.yaml_utils\<close> and are parameters
  here; the loader returns a mapping, empty when the docstring is absent, empty or
  carries no YAML block.
\<close>

fun operations_from_methods ::
  "string list \<Rightarrow> (string option \<Rightarrow> dict) \<Rightarrow> handler \<Rightarrow> dict list \<times> error option" where
  "operations_from_methods [] load_yaml h = ([], None)"
| "operations_from_methods (httpmethod # keys) load_yaml h =
     (case getattr h httpmethod of
        Inl e \<Rightarrow> ([], Some e)
      | Inr m \<Rightarrow>
          (case operations_from_methods keys load_yaml h of
             (yields, e) \<Rightarrow>
               if load_yaml (method_doc m) \<noteq> []
               then ([(httpmethod, YDict (load_yaml (method_doc m)))] # yields, e)
               else (yields, e)))"

definition extensions_from_handler ::
  "(string option \<Rightarrow> dict) \<Rightarrow> handler \<Rightarrow> error + dict" where
  "extensions_from_handler load_yaml h =
     (case handler_doc h of
        None \<Rightarrow> Inl AssertionError
      | Some d \<Rightarrow> if d = [] then Inl AssertionError else Inr (load_yaml (Some d)))"

section \<open>The entry point\<close>

text \<open>
  The \<open>urlspec\<close> argument: \<open>None\<close> (the default), a tuple of constructor arguments,
  or a \<open>URLSpec\<close>. The constructor of tornado's \<open>URLSpec\<close> is a parameter; it
  gives \<open>None\<close> when it raises.
\<close>

datatype 't urlspec_arg = NoURLSpec | URLSpecTuple 't | URLSpecObj urlspec

text \<open>Lines 115 and 116; \<open>URLSpec(*None)\<close> is a \<open>TypeError\<close>.\<close>

definition coerce_urlspec :: "('t \<Rightarrow> urlspec option) \<Rightarrow> 't urlspec_arg \<Rightarrow> error + urlspec" where
  "coerce_urlspec URLSpec arg =
     (case arg of
        URLSpecObj u \<Rightarrow> Inr u
      | NoURLSpec \<Rightarrow> Inl TypeError
      | URLSpecTuple t \<Rightarrow> (case URLSpec t of None \<Rightarrow> Inl URLSpecError | Some u \<Rightarrow> Inr u))"

text \<open>Lines 117 and 118: the loop that stores what the generator yields.\<close>

definition merge_operations :: "dict \<Rightarrow> dict list \<Rightarrow> dict" where
  "merge_operations ops yields = fold (\<lambda>operation acc. dict_update acc operation) yields ops"

text \<open>
  \<open>path_helper\<close> returns the caller's \<open>operations\<close> object as the call leaves it
  together with the path or the exception. The arguments \<open>path\<close>, \<open>parameters\<close> and
  \<open>kwargs\<close> are never read.
\<close>

definition path_helper ::
  "string list \<Rightarrow> (string option \<Rightarrow> dict) \<Rightarrow> ('t \<Rightarrow> urlspec option) \<Rightarrow>
   dict option \<Rightarrow> 't urlspec_arg \<Rightarrow> dict option \<times> (error + string)" where
  "path_helper PATH_KEYS load_yaml URLSpec operations arg =
     (case operations of
        None \<Rightarrow> (None, Inl AssertionError)
      | Some ops \<Rightarrow>
          if ops = [] then (Some ops, Inl AssertionError)
          else
            (case coerce_urlspec URLSpec arg of
               Inl e \<Rightarrow> (Some ops, Inl e)
             | Inr u \<Rightarrow>
                 (case operations_from_methods PATH_KEYS load_yaml (handler_class u) of
                    (yields, Some e) \<Rightarrow> (Some (merge_operations ops yields), Inl e)
                  | (yields, None) \<Rightarrow>
                      let ops1 = merge_operations ops yields in
                      if ops1 = [] then (Some ops1, Inl (APISpecError u))
                      else
                        (case getattr (handler_class u) (fst (hd ops1)) of
                           Inl e \<Rightarrow> (Some ops1, Inl e)
                         | Inr params_method \<Rightarrow>
                             (case extensions_from_handler load_yaml (handler_class u) of
                                Inl e \<Rightarrow> (Some ops1, Inl e)
                              | Inr ext \<Rightarrow>
                                  (Some (dict_update ops1 ext),
                                   tornadopath2openapi u params_method))))))"

section \<open>Templates and slots\<close>

text \<open>
  The number of items a template takes from the tuple: its directives other than
  \<open>%%\<close>, counted up to the first directive that does not parse.
\<close>

function n_slots :: "string \<Rightarrow> nat" where
  "n_slots [] = 0"
| "n_slots (c # cs) =
     (if c \<noteq> CHR ''%'' then n_slots cs
      else if cs \<noteq> [] \<and> hd cs = CHR ''%'' then n_slots (tl cs)
      else
        (case parse_spec cs of
           Inl e \<Rightarrow> 0
         | Inr (sp, rest) \<Rightarrow> Suc (n_slots rest)))"
  by pat_completeness auto
termination
proof (relation "measure length")
  fix c :: char and cs :: string
    and x2 :: "conv_spec \<times> string" and sp rest
  assume "parse_spec cs = Inr x2" "(sp, rest) = x2"
  then have "length rest < length cs" by (auto dest: parse_spec_length)
  then show "(rest, c # cs) \<in> measure length" by simp
qed (auto simp: less_Suc_eq_le)

text \<open>
  A template as tornado builds it: literal segments without \<open>%\<close>, joined by
  \<open>%s\<close>; and the same segments with the items of the tuple in the slots.
\<close>

definition template :: "string \<Rightarrow> string list \<Rightarrow> string" where
  "template s ts = s @ concat (map (\<lambda>t. ''%s'' @ t) ts)"

definition substituted :: "string \<Rightarrow> string list \<Rightarrow> string list \<Rightarrow> string" where
  "substituted s ts args = s @ concat (map2 (\<lambda>a t. a @ t) args ts)"

section \<open>Example values\<close>

definition undocumented :: py_method where
  "undocumented = \<lparr>method_doc = None, method_params = Some [''self'', ''args'', ''kwargs'']\<rparr>"

definition plain_handler :: handler where
  "plain_handler = \<lparr>handler_doc = Some ''A handler'',
     handler_attrs = map (\<lambda>k. (k, undocumented))
       [''get'', ''put'', ''post'', ''delete'', ''options'', ''head'', ''patch'']\<rparr>"

definition example_docs :: "(string \<times> dict) list" where
  "example_docs =
     [(''Get a greeting endpoint.'',
         [(''description'', YStr ''Get a greeting''), (''tags'', YList [YStr ''greeting''])]),
      (''Post a greeting.'',
         [(''description'', YStr ''Post a greeting'')]),
      (''Greeting handler.'',
         [(''tags'', YList [YStr ''handler'']), (''get'', YDict [(''summary'', YStr ''shadow'')])])]"

definition example_load :: "string option \<Rightarrow> dict" where
  "example_load doc =
     (case doc of
        None \<Rightarrow> []
      | Some s \<Rightarrow> (case map_of example_docs s of None \<Rightarrow> [] | Some d \<Rightarrow> d))"

definition items_spec :: "(string \<times> nat) list \<Rightarrow> urlspec" where
  "items_spec gi = \<lparr>regex_groups = 2, regex_groupindex = gi, path_tpl = Some ''/items/%s/%s'',
     handler_class = plain_handler\<rparr>"

definition users_spec :: urlspec where
  "users_spec = \<lparr>regex_groups = 2, regex_groupindex = [], path_tpl = Some ''/users/%s/posts/%s'',
     handler_class = plain_handler\<rparr>"

definition user_post_method :: py_method where
  "user_post_method = \<lparr>method_doc = None,
     method_params = Some [''self'', ''user_id'', ''post_id'']\<rparr>"

text \<open>The \<open>__doc__\<close> of the attribute a verb names, for stating what the extractor yields.\<close>

definition docstring_of :: "handler \<Rightarrow> string \<Rightarrow> string option" where
  "docstring_of h k = (case getattr h k of Inl e \<Rightarrow> None | Inr m \<Rightarrow> method_doc m)"

definition example_PATH_KEYS :: "string list" where
  "example_PATH_KEYS = [''get'', ''put'', ''post'', ''delete'', ''options'', ''head'', ''patch'']"

definition documented_get :: py_method where
  "documented_get = \<lparr>method_doc = Some ''Get a greeting endpoint.'',
     method_params = Some [''self'']\<rparr>"

definition greeting_handler :: handler where
  "greeting_handler = \<lparr>handler_doc = Some ''Greeting handler.'',
     handler_attrs = (''get'', documented_get) # handler_attrs plain_handler\<rparr>"

definition hello_spec :: "handler \<Rightarrow> urlspec" where
  "hello_spec h = \<lparr>regex_groups = 0, regex_groupindex = [], path_tpl = Some ''/hello'',
     handler_class = h\<rparr>"

definition no_URLSpec :: "unit \<Rightarrow> urlspec option" where
  "no_URLSpec t = None"

definition unreversed_spec :: urlspec where
  "unreversed_spec = \<lparr>regex_groups = 0, regex_groupindex = [], path_tpl = None,
     handler_class = plain_handler\<rparr>"

definition item_spec :: urlspec where
  "item_spec = \<lparr>regex_groups = 1, regex_groupindex = [], path_tpl = Some ''/items/%s'',
     handler_class = plain_handler\<rparr>"

definition user_method :: py_method where
  "user_method = \<lparr>method_doc = None, method_params = Some [''self'', ''user_id'']\<rparr>"

definition documented_post :: py_method where
  "documented_post = \<lparr>method_doc = Some ''Post a greeting.'',
     method_params = Some [''self'']\<rparr>"

definition post_get_handler :: handler where
  "post_get_handler = \<lparr>handler_doc = Some ''Greeting handler.'',
     handler_attrs = (''post'', documented_post) # (''get'', documented_get)
       # handler_attrs plain_handler\<rparr>"

definition post_only_handler :: handler where
  "post_only_handler = \<lparr>handler_doc = None,
     handler_attrs = [(''post'', documented_post)]\<rparr>"

section \<open>Formatting: simple templates, errors and slots\<close>

lemma py_format_literal:
  "CHR ''%'' \<notin> set s \<Longrightarrow> py_format (s @ rest) args = map_sum id ((@) s) (py_format rest args)"
proof (induction s)
  case Nil
  show ?case by (simp add: map_sum.identity id_def[symmetric] sum.map_id) 
next
  case (Cons c s)
  then have "c \<noteq> CHR ''%''" and "CHR ''%'' \<notin> set s" by auto
  with Cons.IH show ?case by (simp add: sum.map_comp comp_def)
qed

lemma parse_spec_s:
  "parse_spec (CHR ''s'' # rest) =
     Inr (\<lparr>ljust = False, width = None, prec = None, conv = CHR ''s''\<rparr>, rest)"
  by (simp add: parse_spec_def parse_prec_def is_flag_def is_digit_def digits_val_def
        PY_SSIZE_T_MAX_def)

lemma convert_s:
  "convert \<lparr>ljust = False, width = None, prec = None, conv = CHR ''s''\<rparr> a = Inr a"
  by (simp add: convert_def pad_def)

lemma py_format_slot:
  "py_format (CHR ''%'' # CHR ''s'' # rest) args =
     (case args of [] \<Rightarrow> Inl TypeError | a # as \<Rightarrow> map_sum id ((@) a) (py_format rest as))"
  by (simp add: parse_spec_s convert_s split: list.splits)

lemma py_format_template:
  assumes "CHR ''%'' \<notin> set s" "\<forall>t\<in>set ts. CHR ''%'' \<notin> set t"
  shows "py_format (template s ts) args =
     (if length args = length ts then Inr (substituted s ts args) else Inl TypeError)"
  using assms
proof (induction ts arbitrary: s args)
  case Nil
  then show ?case
    using py_format_literal [of s "[]" args]
    by (auto simp: template_def substituted_def)
next
  case (Cons t ts)
  have "template s (t # ts) = s @ ''%s'' @ template t ts"
    by (simp add: template_def)
  moreover have "py_format (template t ts) as =
     (if length as = length ts then Inr (substituted t ts as) else Inl TypeError)" for as
    using Cons.IH [of t as] Cons.prems by simp
  ultimately show ?case
    using py_format_literal [of s "''%s'' @ template t ts" args] Cons.prems(1)
    by (cases args) (auto simp: py_format_slot substituted_def sum.map_comp comp_def
          simp del: py_format.simps)
qed

lemma parse_spec_error:
  "parse_spec cs = Inl e \<Longrightarrow> e = TypeError \<or> e = ValueError"
  by (auto simp: parse_spec_def parse_prec_def Let_def split: if_splits sum.splits list.splits prod.splits)

lemma convert_error:
  "convert sp a = Inl e \<Longrightarrow> e = TypeError \<or> e = ValueError"
  by (auto simp: convert_def Let_def split: if_splits)

lemma py_format_error:
  "py_format t args = Inl e \<Longrightarrow> e = TypeError \<or> e = ValueError"
proof (induction t args rule: py_format.induct)
  case (1 args)
  then show ?case by (simp split: if_splits)
next
  case (2 c cs args)
  show ?case
  proof (cases "c \<noteq> CHR ''%''")
    case True
    with 2 show ?thesis by (cases "py_format cs args") auto
  next
    case pc: False
    show ?thesis
    proof (cases "cs \<noteq> [] \<and> hd cs = CHR ''%''")
      case True
      with pc 2 show ?thesis by (cases "py_format (tl cs) args") auto
    next
      case False
      show ?thesis
      proof (cases "parse_spec cs")
        case (Inl e')
        with pc False "2.prems" parse_spec_error [of cs e'] show ?thesis by auto
      next
        case (Inr x)
        obtain sp rest where x: "x = (sp, rest)" by (cases x)
        show ?thesis
        proof (cases args)
          case Nil
          with pc False Inr x "2.prems" show ?thesis by auto
        next
          case (Cons a as)
          show ?thesis
          proof (cases "convert sp a")
            case (Inl e')
            with pc False Inr x Cons "2.prems" convert_error [of sp a e'] show ?thesis by auto
          next
            case cr: (Inr s)
            from "2.IH"(3) [OF _ _ Inr x [symmetric] Cons cr] pc False
            have "py_format rest as = Inl e \<Longrightarrow> e = TypeError \<or> e = ValueError" by auto
            with pc False Inr x Cons cr "2.prems" show ?thesis
              by (cases "py_format rest as") auto
          qed
        qed
      qed
    qed
  qed
qed

lemma py_format_slots:
  "py_format t args = Inr out \<Longrightarrow> n_slots t = length args"
proof (induction t args arbitrary: out rule: py_format.induct)
  case (1 args)
  then show ?case by (simp split: if_splits)
next
  case (2 c cs args)
  show ?case
  proof (cases "c \<noteq> CHR ''%''")
    case True
    with 2 show ?thesis by (cases "py_format cs args") auto
  next
    case pc: False
    show ?thesis
    proof (cases "cs \<noteq> [] \<and> hd cs = CHR ''%''")
      case True
      with pc 2 show ?thesis by (cases "py_format (tl cs) args") auto
    next
      case False
      show ?thesis
      proof (cases "parse_spec cs")
        case (Inl e')
        with pc False "2.prems" show ?thesis by auto
      next
        case (Inr x)
        obtain sp rest where x: "x = (sp, rest)" by (cases x)
        show ?thesis
        proof (cases args)
          case Nil
          with pc False Inr x "2.prems" show ?thesis by auto
        next
          case (Cons a as)
          show ?thesis
          proof (cases "convert sp a")
            case (Inl e')
            with pc False Inr x Cons "2.prems" show ?thesis by auto
          next
            case cr: (Inr s)
            from "2.IH"(3) [OF _ _ Inr x [symmetric] Cons cr] pc False
            have "\<And>o'. py_format rest as = Inr o' \<Longrightarrow> n_slots rest = length as" by auto
            with pc False Inr x Cons cr "2.prems" show ?thesis
              by (cases "py_format rest as") auto
          qed
        qed
      qed
    qed
  qed
qed

section \<open>The trim of the rendered path\<close>

lemma rstrip_decomp:
  "\<exists>sfx. s = rstrip chars s @ sfx \<and> set sfx \<subseteq> set chars"
proof -
  have "rev s = takeWhile (\<lambda>c. c \<in> set chars) (rev s) @ dropWhile (\<lambda>c. c \<in> set chars) (rev s)"
    by simp
  then have "s = rev (dropWhile (\<lambda>c. c \<in> set chars) (rev s))
                 @ rev (takeWhile (\<lambda>c. c \<in> set chars) (rev s))"
    by (metis rev_append rev_rev_ident)
  moreover have "set (rev (takeWhile (\<lambda>c. c \<in> set chars) (rev s))) \<subseteq> set chars"
    by (auto dest: set_takeWhileD)
  ultimately show ?thesis unfolding rstrip_def by blast
qed

lemma rstrip_last:
  "rstrip chars s = [] \<or> last (rstrip chars s) \<notin> set chars"
proof (cases "dropWhile (\<lambda>c. c \<in> set chars) (rev s)")
  case Nil
  then show ?thesis by (simp add: rstrip_def)
next
  case (Cons c cs)
  then have "c \<notin> set chars" by (metis hd_dropWhile list.sel(1) list.distinct(1))
  with Cons show ?thesis by (simp add: rstrip_def)
qed

text \<open>
  C4 (amended). On a route that has a template, the last step of the path normalizer
  leaves a rendered path with at most one \<open>/\<close> as it is, and removes from one with
  more than one \<open>/\<close> the longest suffix made of \<open>/\<close>, \<open>?\<close> and \<open>*\<close>; every
  path the normalizer returns is a rendered path after this step. With no capturing
  group and a template, the result is the template itself after this step.
\<close>

theorem tornadopath2openapi_trailing_trim:
  "(\<forall>tpl. regex_groups u = 0 \<and> path_tpl u = Some tpl \<longrightarrow>
      tornadopath2openapi u m = Inr (trailing_trim tpl))
   \<and> (\<forall>path. render_path u m = Inr (Some path) \<longrightarrow>
      tornadopath2openapi u m = Inr (trailing_trim path))
   \<and> (\<forall>p. tornadopath2openapi u m = Inr p \<longrightarrow>
      (\<exists>path. render_path u m = Inr (Some path) \<and> p = trailing_trim path))
   \<and> (\<forall>path. count_list path CHR ''/'' \<le> 1 \<longrightarrow> trailing_trim path = path)
   \<and> (\<forall>path. count_list path CHR ''/'' > 1 \<longrightarrow>
         (\<exists>sfx. path = trailing_trim path @ sfx \<and> set sfx \<subseteq> set ''/?*''
            \<and> (trailing_trim path = [] \<or> last (trailing_trim path) \<notin> set ''/?*'')))"
proof (intro conjI allI impI)
  fix tpl assume "regex_groups u = 0 \<and> path_tpl u = Some tpl"
  then show "tornadopath2openapi u m = Inr (trailing_trim tpl)"
    by (simp add: tornadopath2openapi_def render_path_def)
next
  fix path assume "render_path u m = Inr (Some path)"
  then show "tornadopath2openapi u m = Inr (trailing_trim path)"
    by (simp add: tornadopath2openapi_def)
next
  fix p assume "tornadopath2openapi u m = Inr p"
  then show "\<exists>path. render_path u m = Inr (Some path) \<and> p = trailing_trim path"
    by (auto simp: tornadopath2openapi_def split: sum.splits option.splits)
next
  fix path :: string assume "count_list path CHR ''/'' \<le> 1"
  then show "trailing_trim path = path" by (simp add: trailing_trim_def)
next
  fix path :: string assume "1 < count_list path CHR ''/''"
  then have t: "trailing_trim path = rstrip ''/?*'' path" by (simp add: trailing_trim_def)
  from rstrip_decomp [of path "''/?*''"] rstrip_last [of "''/?*''" path]
  show "\<exists>sfx. path = trailing_trim path @ sfx \<and> set sfx \<subseteq> set ''/?*''
          \<and> (trailing_trim path = [] \<or> last (trailing_trim path) \<notin> set ''/?*'')"
    unfolding t by blast
qed

theorem tornadopath2openapi_trailing_trim_examples:
  "tornadopath2openapi \<lparr>regex_groups = 0, regex_groupindex = [], path_tpl = Some ''/a/b/?'',
       handler_class = plain_handler\<rparr> undocumented = Inr ''/a/b''
   \<and> tornadopath2openapi \<lparr>regex_groups = 0, regex_groupindex = [], path_tpl = Some ''/?'',
       handler_class = plain_handler\<rparr> undocumented = Inr ''/?''"
  using tornadopath2openapi_trailing_trim
          [of "\<lparr>regex_groups = 0, regex_groupindex = [], path_tpl = Some ''/a/b/?'',
                handler_class = plain_handler\<rparr>" undocumented]
        tornadopath2openapi_trailing_trim
          [of "\<lparr>regex_groups = 0, regex_groupindex = [], path_tpl = Some ''/?'',
                handler_class = plain_handler\<rparr>" undocumented]
  by (simp add: trailing_trim_def rstrip_def)

text \<open>
  A route without capturing groups that tornado could not reverse: there is no
  template, and the normalizer raises \<open>AttributeError\<close> at line 89 instead of
  returning a path.
\<close>

theorem tornadopath2openapi_no_template:
  "regex_groups unreversed_spec = 0
   \<and> tornadopath2openapi unreversed_spec undocumented = Inl AttributeError"
  by (simp add: unreversed_spec_def tornadopath2openapi_def render_path_def)

section \<open>Parameter names and substitution\<close>

lemma filter_distinct_key:
  "distinct (map f xs) \<Longrightarrow> k \<in> set xs \<Longrightarrow> filter (\<lambda>x. f k = f x) xs = [k]"
proof (induction xs)
  case Nil
  then show ?case by simp
next
  case (Cons x xs)
  show ?case
  proof (cases "k = x")
    case True
    have "filter (\<lambda>y. f x = f y) xs = []"
      using Cons.prems(1) by (auto simp: filter_empty_conv)
    with True show ?thesis by simp
  next
    case False
    with Cons.prems have kin: "k \<in> set xs" by simp
    then have "f k \<in> f ` set xs" by (rule imageI)
    moreover from Cons.prems(1) have "f x \<notin> f ` set xs" by simp
    ultimately have "f k \<noteq> f x" by metis
    with Cons.IH kin Cons.prems(1) show ?thesis by simp
  qed
qed

lemma sort_key_distinct_unique:
  assumes "distinct (map f xs)" "mset ys = mset xs" "sorted (map f ys)"
  shows "sort_key f xs = ys"
proof (rule properties_for_sort_key [OF assms(2) _ assms(3)])
  fix k assume k: "k \<in> set ys"
  from assms(2) have "mset (map f ys) = mset (map f xs)" by simp
  with assms(1) have dy: "distinct (map f ys)" by (metis mset_eq_imp_distinct_iff)
  from k assms(2) have kx: "k \<in> set xs" by (metis mset_eq_setD)
  show "filter (\<lambda>x. f k = f x) ys = filter (\<lambda>x. f k = f x) xs"
    by (simp add: filter_distinct_key [OF dy k] filter_distinct_key [OF assms(1) kx])
qed

lemma tornadopath2openapi_args:
  assumes "regex_groups u \<noteq> 0" "path_args u m = Inr args"
  shows "tornadopath2openapi u m =
     (case py_mod (path_tpl u) (map brace args) of
        Inl e \<Rightarrow> Inl e
      | Inr path \<Rightarrow> Inr (trailing_trim path))"
  using assms by (simp add: tornadopath2openapi_def render_path_def split: sum.splits)

lemma tornadopath2openapi_template:
  assumes "regex_groups u \<noteq> 0" "path_args u m = Inr args"
    and "path_tpl u = Some (template s ts)" "CHR ''%'' \<notin> set s"
    and "\<forall>t\<in>set ts. CHR ''%'' \<notin> set t" and "length ts = length args"
  shows "tornadopath2openapi u m = Inr (trailing_trim (substituted s ts (map brace args)))"
  using assms(3,6) py_format_template [OF assms(4,5), of "map brace args"]
  by (simp add: tornadopath2openapi_args [OF assms(1,2)] py_mod_def)

text \<open>
  C2. With capturing groups and a non-empty name-to-index mapping, the slots of the
  template are filled with the group names in ascending order of their group index:
  whatever order the mapping lists them in, the names used are those of the arrangement
  \<open>ps\<close> of its items that is sorted by index (two groups never share an index). On a
  template of literal segments joined by \<open>%s\<close>, with as many slots as names, the
  result is the segments with \<open>{name}\<close> in the slots, trimmed.
\<close>

theorem tornadopath2openapi_named_groups:
  assumes "regex_groups u \<noteq> 0" and "regex_groupindex u \<noteq> []"
    and "distinct (map snd (regex_groupindex u))"
    and "mset ps = mset (regex_groupindex u)" and "sorted (map snd ps)"
  shows "tornadopath2openapi u m =
           (case py_mod (path_tpl u) (map (\<lambda>p. ''{'' @ fst p @ ''}'') ps) of
              Inl e \<Rightarrow> Inl e
            | Inr path \<Rightarrow> Inr (trailing_trim path))
         \<and> (\<forall>s ts. path_tpl u = Some (template s ts) \<and> CHR ''%'' \<notin> set s
               \<and> (\<forall>t\<in>set ts. CHR ''%'' \<notin> set t) \<and> length ts = length ps \<longrightarrow>
             tornadopath2openapi u m =
               Inr (trailing_trim (substituted s ts (map (\<lambda>p. ''{'' @ fst p @ ''}'') ps))))"
proof -
  have "sort_key snd (regex_groupindex u) = ps"
    using assms(3,4,5) by (rule sort_key_distinct_unique)
  with assms(2) have pa: "path_args u m = Inr (map fst ps)"
    by (simp add: path_args_def)
  have br: "map brace (map fst ps) = map (\<lambda>p. ''{'' @ fst p @ ''}'') ps"
    by (simp add: brace_def)
  show ?thesis
    using tornadopath2openapi_args [OF assms(1) pa]
          tornadopath2openapi_template [OF assms(1) pa]
    unfolding br by simp
qed

theorem tornadopath2openapi_named_groups_example:
  "tornadopath2openapi (items_spec [(''id'', 2), (''name'', 1)]) undocumented
     = Inr ''/items/{name}/{id}''
   \<and> tornadopath2openapi (items_spec [(''name'', 1), (''id'', 2)]) undocumented
     = Inr ''/items/{name}/{id}''"
proof -
  let ?ps = "[(''name'', 1::nat), (''id'', 2)]"
  have filled: "trailing_trim (substituted ''/items/'' [''/'', '''']
      (map (\<lambda>p. ''{'' @ fst p @ ''}'') ?ps)) = ''/items/{name}/{id}''"
    by (simp add: substituted_def trailing_trim_def rstrip_def)
  have "tornadopath2openapi (items_spec [(''id'', 2), (''name'', 1)]) undocumented
     = Inr (trailing_trim (substituted ''/items/'' [''/'', '''']
          (map (\<lambda>p. ''{'' @ fst p @ ''}'') ?ps)))"
    by (rule tornadopath2openapi_named_groups
          [of "items_spec [(''id'', 2), (''name'', 1)]" ?ps undocumented,
           THEN conjunct2, rule_format, of "''/items/''" "[''/'', '''']"])
       (simp_all add: items_spec_def template_def)
  moreover have "tornadopath2openapi (items_spec [(''name'', 1), (''id'', 2)]) undocumented
     = Inr (trailing_trim (substituted ''/items/'' [''/'', '''']
          (map (\<lambda>p. ''{'' @ fst p @ ''}'') ?ps)))"
    by (rule tornadopath2openapi_named_groups
          [of "items_spec [(''name'', 1), (''id'', 2)]" ?ps undocumented,
           THEN conjunct2, rule_format, of "''/items/''" "[''/'', '''']"])
       (simp_all add: items_spec_def template_def)
  ultimately show ?thesis unfolding filled by simp
qed

text \<open>
  C3. With capturing groups and no named group, the slots of the template are filled
  with the parameter names of the method, in declaration order, the first one dropped.
\<close>

theorem tornadopath2openapi_unnamed_groups:
  assumes "regex_groups u \<noteq> 0" and "regex_groupindex u = []"
    and "method_params m = Some ps"
  shows "tornadopath2openapi u m =
           (case py_mod (path_tpl u) (map (\<lambda>n. ''{'' @ n @ ''}'') (drop 1 ps)) of
              Inl e \<Rightarrow> Inl e
            | Inr path \<Rightarrow> Inr (trailing_trim path))
         \<and> (\<forall>s ts. path_tpl u = Some (template s ts) \<and> CHR ''%'' \<notin> set s
               \<and> (\<forall>t\<in>set ts. CHR ''%'' \<notin> set t) \<and> length ts = length (drop 1 ps) \<longrightarrow>
             tornadopath2openapi u m =
               Inr (trailing_trim
                     (substituted s ts (map (\<lambda>n. ''{'' @ n @ ''}'') (drop 1 ps)))))"
proof -
  from assms(2,3) have pa: "path_args u m = Inr (drop 1 ps)"
    by (simp add: path_args_def)
  have br: "map brace (drop 1 ps) = map (\<lambda>n. ''{'' @ n @ ''}'') (drop 1 ps)"
    by (simp add: brace_def)
  show ?thesis
    using tornadopath2openapi_args [OF assms(1) pa]
          tornadopath2openapi_template [OF assms(1) pa]
    unfolding br by simp
qed

theorem tornadopath2openapi_unnamed_groups_example:
  "tornadopath2openapi users_spec user_post_method = Inr ''/users/{user_id}/posts/{post_id}''"
proof -
  let ?ps = "[''self'', ''user_id'', ''post_id'']"
  have filled: "trailing_trim (substituted ''/users/'' [''/posts/'', '''']
      (map (\<lambda>n. ''{'' @ n @ ''}'') (drop 1 ?ps))) = ''/users/{user_id}/posts/{post_id}''"
    by (simp add: substituted_def trailing_trim_def rstrip_def)
  have "tornadopath2openapi users_spec user_post_method
     = Inr (trailing_trim (substituted ''/users/'' [''/posts/'', '''']
          (map (\<lambda>n. ''{'' @ n @ ''}'') (drop 1 ?ps))))"
    by (rule tornadopath2openapi_unnamed_groups
          [of users_spec user_post_method ?ps,
           THEN conjunct2, rule_format, of "''/users/''" "[''/posts/'', '''']"])
       (simp_all add: users_spec_def user_post_method_def template_def)
  then show ?thesis unfolding filled .
qed

section \<open>Dictionaries and the operation extractor\<close>

lemma dict_setitem_nonempty: "dict_setitem d k v \<noteq> []"
  by (cases d) (auto split: if_splits)

lemma map_of_dict_setitem: "map_of (dict_setitem d k v) = (map_of d)(k \<mapsto> v)"
  by (induction d) auto

lemma dict_update_Cons:
  "dict_update d ((k, v) # other) = dict_update (dict_setitem d k v) other"
  by (simp add: dict_update_def)

lemma dict_update_nonempty: "d \<noteq> [] \<Longrightarrow> dict_update d other \<noteq> []"
proof (induction other arbitrary: d)
  case Nil
  then show ?case by (simp add: dict_update_def)
next
  case (Cons p other)
  obtain k v where p: "p = (k, v)" by (cases p)
  show ?case unfolding p dict_update_Cons
    by (rule Cons.IH) (rule dict_setitem_nonempty)
qed

lemma map_of_dict_update:
  "distinct (map fst other) \<Longrightarrow>
   map_of (dict_update d other) x =
     (case map_of other x of Some v \<Rightarrow> Some v | None \<Rightarrow> map_of d x)"
proof (induction other arbitrary: d)
  case Nil
  then show ?case by (simp add: dict_update_def)
next
  case (Cons p other)
  obtain k v where p: "p = (k, v)" by (cases p)
  from Cons.prems p have d: "distinct (map fst other)" and k: "k \<notin> fst ` set other" by auto
  from k have none: "map_of other k = None" by (simp add: map_of_eq_None_iff)
  show ?case
    unfolding p dict_update_Cons Cons.IH [OF d]
    using none by (auto simp: map_of_dict_setitem split: option.splits)
qed

lemma merge_operations_Cons:
  "merge_operations ops (y # ys) = merge_operations (dict_update ops y) ys"
  by (simp add: merge_operations_def)

lemma merge_operations_nonempty: "ops \<noteq> [] \<Longrightarrow> merge_operations ops ys \<noteq> []"
proof (induction ys arbitrary: ops)
  case Nil
  then show ?case by (simp add: merge_operations_def)
next
  case (Cons y ys)
  show ?case unfolding merge_operations_Cons
    by (rule Cons.IH) (rule dict_update_nonempty [OF Cons.prems])
qed

lemma merge_operations_lookup:
  "map_of (merge_operations ops (map (\<lambda>k. [(k, val k)]) ks)) x =
     (if x \<in> set ks then Some (val x) else map_of ops x)"
proof (induction ks arbitrary: ops)
  case Nil
  show ?case by (simp add: merge_operations_def)
next
  case (Cons k ks)
  show ?case
    by (simp add: merge_operations_Cons Cons.IH dict_update_def map_of_dict_setitem)
qed

lemma getattr_cases:
  "getattr h k = Inl AttributeError \<and> map_of (handler_attrs h) k = None
   \<or> (\<exists>m. getattr h k = Inr m \<and> map_of (handler_attrs h) k = Some m)"
  by (auto simp: getattr_def split: option.splits)

lemma operations_from_methods_present:
  "\<forall>k\<in>set ks. map_of (handler_attrs h) k \<noteq> None \<Longrightarrow>
   operations_from_methods ks load_yaml h =
     (map (\<lambda>k. [(k, YDict (load_yaml (docstring_of h k)))])
        (filter (\<lambda>k. load_yaml (docstring_of h k) \<noteq> []) ks), None)"
proof (induction ks)
  case Nil
  show ?case by simp
next
  case (Cons k ks)
  then obtain m where m: "map_of (handler_attrs h) k = Some m" by auto
  then have g: "getattr h k = Inr m" by (simp add: getattr_def)
  from Cons have "operations_from_methods ks load_yaml h =
     (map (\<lambda>k. [(k, YDict (load_yaml (docstring_of h k)))])
        (filter (\<lambda>k. load_yaml (docstring_of h k) \<noteq> []) ks), None)" by simp
  then show ?case by (simp add: g docstring_of_def)
qed

lemma operations_from_methods_absent:
  "\<exists>k\<in>set ks. map_of (handler_attrs h) k = None \<Longrightarrow>
   snd (operations_from_methods ks load_yaml h) = Some AttributeError"
proof (induction ks)
  case Nil
  then show ?case by simp
next
  case (Cons k ks)
  show ?case
  proof (cases "map_of (handler_attrs h) k")
    case None
    then show ?thesis by (simp add: getattr_def)
  next
    case (Some m)
    with Cons.prems have "\<exists>k\<in>set ks. map_of (handler_attrs h) k = None" by auto
    then have "snd (operations_from_methods ks load_yaml h) = Some AttributeError"
      by (rule Cons.IH)
    with Some show ?thesis
      by (cases "operations_from_methods ks load_yaml h") (simp add: getattr_def)
  qed
qed

lemma operations_from_methods_error:
  "operations_from_methods ks load_yaml h = (ys, Some e) \<Longrightarrow> e = AttributeError"
proof (induction ks arbitrary: ys)
  case Nil
  then show ?case by simp
next
  case (Cons k ks)
  show ?case
  proof (cases "map_of (handler_attrs h) k")
    case None
    with Cons.prems show ?thesis by (simp add: getattr_def)
  next
    case (Some m)
    obtain zs e' where r: "operations_from_methods ks load_yaml h = (zs, e')"
      by (cases "operations_from_methods ks load_yaml h")
    with Some Cons.prems have "e' = Some e" by (simp add: getattr_def split: if_splits)
    with r Cons.IH show ?thesis by simp
  qed
qed

text \<open>
  C6 (amended). The extractor goes through \<open>PATH_KEYS\<close> in order, up to the first verb
  that is not an attribute of the handler. It yields one entry per verb on the way whose
  docstring gives a non-empty result, in the order of \<open>PATH_KEYS\<close>, and leaves the
  other verbs out without raising. With every verb present it ends normally; otherwise
  \<open>getattr\<close> ends it with \<open>AttributeError\<close> at the first absent verb, and nothing is
  yielded for that verb or a later one.
\<close>

theorem operations_from_methods_order:
  "operations_from_methods PATH_KEYS load_yaml h =
     (map (\<lambda>k. [(k, YDict (load_yaml (docstring_of h k)))])
        (filter (\<lambda>k. load_yaml (docstring_of h k) \<noteq> [])
           (takeWhile (\<lambda>k. map_of (handler_attrs h) k \<noteq> None) PATH_KEYS)),
      if \<forall>k\<in>set PATH_KEYS. map_of (handler_attrs h) k \<noteq> None then None
      else Some AttributeError)"
proof (induction PATH_KEYS)
  case Nil
  show ?case by simp
next
  case (Cons k ks)
  show ?case
  proof (cases "map_of (handler_attrs h) k")
    case None
    then show ?thesis by (simp add: getattr_def)
  next
    case (Some m)
    then have g: "getattr h k = Inr m" by (simp add: getattr_def)
    then have d: "docstring_of h k = method_doc m" by (simp add: docstring_of_def)
    show ?thesis by (simp add: g d Some Cons.IH)
  qed
qed

theorem operations_from_methods_order_example:
  "operations_from_methods example_PATH_KEYS example_load post_get_handler =
     ([[(''get'', YDict [(''description'', YStr ''Get a greeting''),
                         (''tags'', YList [YStr ''greeting''])])],
       [(''post'', YDict [(''description'', YStr ''Post a greeting'')])]], None)
   \<and> operations_from_methods example_PATH_KEYS example_load post_only_handler =
     ([], Some AttributeError)"
  using operations_from_methods_order [of example_PATH_KEYS example_load post_get_handler]
        operations_from_methods_order [of example_PATH_KEYS example_load post_only_handler]
  by (simp add: example_PATH_KEYS_def post_get_handler_def post_only_handler_def
        plain_handler_def docstring_of_def getattr_def example_load_def example_docs_def
        documented_get_def documented_post_def undocumented_def)

text \<open>
  A handler with a documented \<open>post\<close> and no \<open>get\<close>: the absent verb is not left
  out silently, the extractor raises at it.
\<close>

theorem operations_from_methods_absent_verb:
  "operations_from_methods [''get'', ''post''] example_load post_only_handler
     = ([], Some AttributeError)"
  by (simp add: getattr_def post_only_handler_def)

section \<open>Calls of the entry point\<close>

lemma path_helper_reaches:
  assumes "ops \<noteq> []"
    and "coerce_urlspec URLSpec arg = Inr u"
    and "operations_from_methods PATH_KEYS load_yaml (handler_class u) = (ys, None)"
    and "getattr (handler_class u) (fst (hd (merge_operations ops ys))) = Inr m"
    and "extensions_from_handler load_yaml (handler_class u) = Inr ext"
  shows "path_helper PATH_KEYS load_yaml URLSpec (Some ops) arg =
           (Some (dict_update (merge_operations ops ys) ext), tornadopath2openapi u m)"
  using assms merge_operations_nonempty [OF assms(1), of ys]
  by (simp add: path_helper_def)

lemma path_helper_Inr:
  assumes "path_helper PATH_KEYS load_yaml URLSpec operations arg = (ops', Inr path)"
  shows "\<exists>ops u ys m ext. operations = Some ops \<and> ops \<noteq> []
           \<and> coerce_urlspec URLSpec arg = Inr u
           \<and> operations_from_methods PATH_KEYS load_yaml (handler_class u) = (ys, None)
           \<and> getattr (handler_class u) (fst (hd (merge_operations ops ys))) = Inr m
           \<and> extensions_from_handler load_yaml (handler_class u) = Inr ext
           \<and> ops' = Some (dict_update (merge_operations ops ys) ext)
           \<and> tornadopath2openapi u m = Inr path"
  using assms
  by (auto simp: path_helper_def Let_def
           split: option.splits if_splits sum.splits prod.splits)

lemma coerce_urlspec_error:
  "coerce_urlspec URLSpec arg = Inl e \<Longrightarrow> e = TypeError \<or> e = URLSpecError"
  by (auto simp: coerce_urlspec_def split: urlspec_arg.splits option.splits)

lemma getattr_error: "getattr h k = Inl e \<Longrightarrow> e = AttributeError"
  by (auto simp: getattr_def split: option.splits)

lemma extensions_from_handler_error:
  "extensions_from_handler load_yaml h = Inl e \<Longrightarrow> e = AssertionError"
  by (auto simp: extensions_from_handler_def split: option.splits if_splits)

lemma tornadopath2openapi_error:
  "tornadopath2openapi u m = Inl e \<Longrightarrow>
     e = TypeError \<or> e = ValueError \<or> e = SignatureError \<or> e = AttributeError"
  by (auto simp: tornadopath2openapi_def render_path_def path_args_def py_mod_def
           split: sum.splits if_splits option.splits dest: py_format_error)

lemma path_helper_no_APISpecError:
  "snd (path_helper PATH_KEYS load_yaml URLSpec operations arg) \<noteq> Inl (APISpecError u)"
proof (cases operations)
  case None
  then show ?thesis by (simp add: path_helper_def)
next
  case (Some ops)
  show ?thesis
  proof (cases "ops = []")
    case True
    with Some show ?thesis by (simp add: path_helper_def)
  next
    case ne: False
    show ?thesis
    proof (cases "coerce_urlspec URLSpec arg")
      case (Inl e)
      with Some ne coerce_urlspec_error [OF Inl] show ?thesis
        by (auto simp: path_helper_def)
    next
      case (Inr u')
      obtain ys err where r: "operations_from_methods PATH_KEYS load_yaml (handler_class u') = (ys, err)"
        by (cases "operations_from_methods PATH_KEYS load_yaml (handler_class u')")
      have mne: "merge_operations ops ys \<noteq> []" by (rule merge_operations_nonempty [OF ne])
      show ?thesis
      proof (cases err)
        case (Some e)
        with r have "e = AttributeError" by (auto dest: operations_from_methods_error)
        with \<open>operations = Some ops\<close> ne Inr r Some show ?thesis
          by (simp add: path_helper_def)
      next
        case None
        show ?thesis
        proof (cases "getattr (handler_class u') (fst (hd (merge_operations ops ys)))")
          case (Inl e)
          with \<open>operations = Some ops\<close> ne Inr r None mne getattr_error [OF Inl] show ?thesis
            by (simp add: path_helper_def)
        next
          case gm: (Inr m)
          show ?thesis
          proof (cases "extensions_from_handler load_yaml (handler_class u')")
            case (Inl e)
            with \<open>operations = Some ops\<close> ne Inr r None mne gm
              extensions_from_handler_error [OF Inl] show ?thesis
              by (simp add: path_helper_def)
          next
            case ex: (Inr ext)
            have "snd (path_helper PATH_KEYS load_yaml URLSpec operations arg)
                    = tornadopath2openapi u' m"
              using path_helper_reaches [OF ne Inr r [unfolded None] gm ex]
                \<open>operations = Some ops\<close> by simp
            then show ?thesis
              using tornadopath2openapi_error [of u' m "APISpecError u"] by auto
          qed
        qed
      qed
    qed
  qed
qed

text \<open>
  C5. \<open>assert operations\<close> comes first: with \<open>operations\<close> absent or empty the call
  ends in \<open>AssertionError\<close> whatever the other arguments are, and the mapping is as it
  was. A mapping that is not empty stays so under \<open>update\<close>, so no call ends in
  \<open>APISpecError\<close>.
\<close>

theorem path_helper_entry_assertion:
  "((operations = None \<or> operations = Some []) \<longrightarrow>
      path_helper PATH_KEYS load_yaml URLSpec operations arg = (operations, Inl AssertionError))
   \<and> (\<forall>ops. operations = Some ops \<and> ops \<noteq> [] \<longrightarrow>
      (\<forall>u. snd (path_helper PATH_KEYS load_yaml URLSpec operations arg) \<noteq> Inl (APISpecError u)))"
proof (intro conjI impI allI)
  assume "operations = None \<or> operations = Some []"
  then show "path_helper PATH_KEYS load_yaml URLSpec operations arg
               = (operations, Inl AssertionError)"
    by (auto simp: path_helper_def)
next
  fix ops u
  show "snd (path_helper PATH_KEYS load_yaml URLSpec operations arg) \<noteq> Inl (APISpecError u)"
    by (rule path_helper_no_APISpecError)
qed

theorem path_helper_entry_assertion_example:
  "path_helper example_PATH_KEYS example_load no_URLSpec None
      (URLSpecObj (hello_spec greeting_handler)) = (None, Inl AssertionError)
   \<and> path_helper example_PATH_KEYS example_load no_URLSpec (Some [])
      (URLSpecObj (hello_spec greeting_handler)) = (Some [], Inl AssertionError)
   \<and> snd (path_helper example_PATH_KEYS example_load no_URLSpec (Some [(''get'', YNull)])
      (URLSpecObj (hello_spec plain_handler)))
        \<noteq> Inl (APISpecError (hello_spec plain_handler))"
  using path_helper_entry_assertion [of None example_PATH_KEYS example_load no_URLSpec
          "URLSpecObj (hello_spec greeting_handler)"]
        path_helper_entry_assertion [of "Some []" example_PATH_KEYS example_load no_URLSpec
          "URLSpecObj (hello_spec greeting_handler)"]
        path_helper_entry_assertion [of "Some [(''get'', YNull)]" example_PATH_KEYS
          example_load no_URLSpec "URLSpecObj (hello_spec plain_handler)"]
  by simp

text \<open>
  C1. A handler with no documented verb and an empty \<open>operations\<close>: the extractor
  yields nothing, and the call ends in \<open>AssertionError\<close> at line 113, not in the
  \<open>APISpecError\<close> of line 120.
\<close>

theorem path_helper_undocumented_handler:
  "operations_from_methods example_PATH_KEYS example_load plain_handler = ([], None)
   \<and> path_helper example_PATH_KEYS example_load no_URLSpec (Some [])
        (URLSpecObj (hello_spec plain_handler)) = (Some [], Inl AssertionError)"
  by (simp add: path_helper_def example_PATH_KEYS_def plain_handler_def getattr_def
        example_load_def undocumented_def)

text \<open>
  C7. In a call that returns a path, the handler metadata is stored last: every key
  of the handler metadata has the handler's value in the final mapping, and every other
  key has the value it had after the per-method operations were stored. So a key that
  a per-method operation and the handler metadata both set ends with the handler's
  value.
\<close>

theorem path_helper_handler_metadata_last:
  assumes "path_helper PATH_KEYS load_yaml URLSpec (Some ops) arg = (ops', Inr path)"
    and "coerce_urlspec URLSpec arg = Inr u"
    and "distinct (map fst (load_yaml (handler_doc (handler_class u))))"
  shows "\<exists>final. ops' = Some final \<and>
           (\<forall>k. map_of final k =
              (case map_of (load_yaml (handler_doc (handler_class u))) k of
                 Some v \<Rightarrow> Some v
               | None \<Rightarrow>
                   map_of (merge_operations ops
                     (fst (operations_from_methods PATH_KEYS load_yaml (handler_class u)))) k))
         \<and> (\<forall>k v. k \<in> set PATH_KEYS \<and> load_yaml (docstring_of (handler_class u) k) \<noteq> []
               \<and> map_of (load_yaml (handler_doc (handler_class u))) k = Some v \<longrightarrow>
             map_of final k = Some v)
         \<and> (\<forall>k. k \<in> set PATH_KEYS \<and> load_yaml (docstring_of (handler_class u) k) \<noteq> []
               \<and> map_of (load_yaml (handler_doc (handler_class u))) k = None \<longrightarrow>
             map_of final k = Some (YDict (load_yaml (docstring_of (handler_class u) k))))"
proof -
  let ?h = "handler_class u"
  from path_helper_Inr [OF assms(1)] assms(2)
  obtain ys m ext where ne: "ops \<noteq> []"
    and ys: "operations_from_methods PATH_KEYS load_yaml ?h = (ys, None)"
    and ext: "extensions_from_handler load_yaml ?h = Inr ext"
    and fin: "ops' = Some (dict_update (merge_operations ops ys) ext)"
    by auto
  from ext have e: "ext = load_yaml (handler_doc ?h)"
    by (auto simp: extensions_from_handler_def split: option.splits if_splits)
  let ?final = "dict_update (merge_operations ops ys) ext"
  have look: "map_of ?final k =
      (case map_of ext k of Some v \<Rightarrow> Some v | None \<Rightarrow> map_of (merge_operations ops ys) k)" for k
    using assms(3) unfolding e [symmetric] by (rule map_of_dict_update)
  have present: "\<forall>k\<in>set PATH_KEYS. map_of (handler_attrs ?h) k \<noteq> None"
  proof (rule ccontr)
    assume "\<not> (\<forall>k\<in>set PATH_KEYS. map_of (handler_attrs ?h) k \<noteq> None)"
    then have "\<exists>k\<in>set PATH_KEYS. map_of (handler_attrs ?h) k = None" by simp
    from operations_from_methods_absent [OF this, of load_yaml] ys show False by simp
  qed
  have ys_eq: "ys = map (\<lambda>k. [(k, YDict (load_yaml (docstring_of ?h k)))])
        (filter (\<lambda>k. load_yaml (docstring_of ?h k) \<noteq> []) PATH_KEYS)"
    using operations_from_methods_present [OF present, of load_yaml] ys by simp
  have per: "map_of (merge_operations ops ys) k = Some (YDict (load_yaml (docstring_of ?h k)))"
    if "k \<in> set PATH_KEYS" "load_yaml (docstring_of ?h k) \<noteq> []" for k
    unfolding ys_eq using that by (simp add: merge_operations_lookup)
  show ?thesis
  proof (intro exI conjI allI impI)
    show "ops' = Some ?final" by (rule fin)
  next
    fix k
    have "fst (operations_from_methods PATH_KEYS load_yaml ?h) = ys" by (simp add: ys)
    then show "map_of ?final k =
      (case map_of (load_yaml (handler_doc ?h)) k of
         Some v \<Rightarrow> Some v
       | None \<Rightarrow> map_of (merge_operations ops
                     (fst (operations_from_methods PATH_KEYS load_yaml ?h))) k)"
      using look [of k] unfolding e by metis
  next
    fix k v
    assume "k \<in> set PATH_KEYS \<and> load_yaml (docstring_of ?h k) \<noteq> []
       \<and> map_of (load_yaml (handler_doc ?h)) k = Some v"
    then show "map_of ?final k = Some v" using look [of k] by (simp add: e)
  next
    fix k
    assume "k \<in> set PATH_KEYS \<and> load_yaml (docstring_of ?h k) \<noteq> []
       \<and> map_of (load_yaml (handler_doc ?h)) k = None"
    then show "map_of ?final k = Some (YDict (load_yaml (docstring_of ?h k)))"
      using look [of k] per [of k] by (simp add: e)
  qed
qed

theorem path_helper_handler_metadata_last_example:
  "path_helper example_PATH_KEYS example_load no_URLSpec
      (Some [(''get'', YDict [(''summary'', YStr ''caller'')])])
      (URLSpecObj (hello_spec greeting_handler))
     = (Some [(''get'', YDict [(''summary'', YStr ''shadow'')]),
              (''tags'', YList [YStr ''handler''])], Inr ''/hello'')
   \<and> map_of [(''get'', YDict [(''summary'', YStr ''shadow'')]),
              (''tags'', YList [YStr ''handler''])] ''get''
     = map_of (example_load (handler_doc greeting_handler)) ''get''"
proof -
  have run: "path_helper example_PATH_KEYS example_load no_URLSpec
      (Some [(''get'', YDict [(''summary'', YStr ''caller'')])])
      (URLSpecObj (hello_spec greeting_handler))
     = (Some [(''get'', YDict [(''summary'', YStr ''shadow'')]),
              (''tags'', YList [YStr ''handler''])], Inr ''/hello'')"
    by (simp add: path_helper_def coerce_urlspec_def hello_spec_def greeting_handler_def
          plain_handler_def example_PATH_KEYS_def getattr_def example_load_def
          example_docs_def documented_get_def undocumented_def merge_operations_def
          dict_update_def extensions_from_handler_def tornadopath2openapi_def
          render_path_def trailing_trim_def)
  have co: "coerce_urlspec no_URLSpec (URLSpecObj (hello_spec greeting_handler))
      = Inr (hello_spec greeting_handler)"
    by (simp add: coerce_urlspec_def)
  have di: "distinct (map fst (example_load
      (handler_doc (handler_class (hello_spec greeting_handler)))))"
    by (simp add: hello_spec_def greeting_handler_def example_load_def example_docs_def)
  have doc: "example_load (docstring_of (handler_class (hello_spec greeting_handler)) ''get'')
      \<noteq> []"
    by (simp add: hello_spec_def greeting_handler_def docstring_of_def getattr_def
          documented_get_def example_load_def example_docs_def)
  have hv: "map_of (example_load (handler_doc (handler_class (hello_spec greeting_handler))))
      ''get'' = Some (YDict [(''summary'', YStr ''shadow'')])"
    by (simp add: hello_spec_def greeting_handler_def example_load_def example_docs_def)
  from path_helper_handler_metadata_last [OF run co di]
  obtain final where f: "Some [(''get'', YDict [(''summary'', YStr ''shadow'')]),
              (''tags'', YList [YStr ''handler''])] = Some final"
    and win: "\<forall>k v. k \<in> set example_PATH_KEYS
        \<and> example_load (docstring_of (handler_class (hello_spec greeting_handler)) k) \<noteq> []
        \<and> map_of (example_load (handler_doc (handler_class (hello_spec greeting_handler)))) k
            = Some v \<longrightarrow> map_of final k = Some v"
    by blast
  have "''get'' \<in> set example_PATH_KEYS" by (simp add: example_PATH_KEYS_def)
  with win doc hv have "map_of final ''get'' = Some (YDict [(''summary'', YStr ''shadow'')])"
    by blast
  with f hv have "map_of [(''get'', YDict [(''summary'', YStr ''shadow'')]),
              (''tags'', YList [YStr ''handler''])] ''get''
     = map_of (example_load (handler_doc greeting_handler)) ''get''"
    by (simp add: hello_spec_def)
  with run show ?thesis by blast
qed

text \<open>
  C8. \<open>_extensions_from_handler\<close> asserts that the handler has a docstring that is not
  empty, and otherwise returns what the docstring parser makes of it.
\<close>

theorem extensions_from_handler_docstring:
  "((handler_doc h = None \<or> handler_doc h = Some []) \<longrightarrow>
      extensions_from_handler load_yaml h = Inl AssertionError)
   \<and> (\<forall>d. handler_doc h = Some d \<and> d \<noteq> [] \<longrightarrow>
      extensions_from_handler load_yaml h = Inr (load_yaml (Some d)))"
  by (auto simp: extensions_from_handler_def)

theorem extensions_from_handler_docstring_example:
  "extensions_from_handler example_load \<lparr>handler_doc = None, handler_attrs = []\<rparr>
     = Inl AssertionError
   \<and> extensions_from_handler example_load \<lparr>handler_doc = Some [], handler_attrs = []\<rparr>
     = Inl AssertionError
   \<and> extensions_from_handler example_load greeting_handler
     = Inr [(''tags'', YList [YStr ''handler'']), (''get'', YDict [(''summary'', YStr ''shadow'')])]"
  using extensions_from_handler_docstring
          [of "\<lparr>handler_doc = None, handler_attrs = []\<rparr>" example_load]
        extensions_from_handler_docstring
          [of "\<lparr>handler_doc = Some [], handler_attrs = []\<rparr>" example_load]
        extensions_from_handler_docstring [of greeting_handler example_load]
  by (simp add: greeting_handler_def example_load_def example_docs_def)

text \<open>
  C9. When the names are derived (the regex has a capturing group) and their number
  differs from the number of slots of the template, the substitution fails with
  \<open>TypeError\<close> or \<open>ValueError\<close>, the normalizer fails with the same exception, and
  so does every call of the entry point that gets as far as the normalizer.
\<close>

theorem tornadopath2openapi_slot_mismatch:
  assumes "regex_groups u \<noteq> 0" and "path_args u m = Inr names"
    and "path_tpl u = Some tpl" and "n_slots tpl \<noteq> length names"
  shows "\<exists>e. (e = TypeError \<or> e = ValueError)
           \<and> py_format tpl (map brace names) = Inl e
           \<and> tornadopath2openapi u m = Inl e
           \<and> (ops \<noteq> [] \<and> coerce_urlspec URLSpec arg = Inr u
                 \<and> operations_from_methods PATH_KEYS load_yaml (handler_class u) = (ys, None)
                 \<and> getattr (handler_class u) (fst (hd (merge_operations ops ys))) = Inr m
                 \<and> extensions_from_handler load_yaml (handler_class u) = Inr ext \<longrightarrow>
               snd (path_helper PATH_KEYS load_yaml URLSpec (Some ops) arg) = Inl e)"
proof -
  obtain e where e: "py_format tpl (map brace names) = Inl e"
  proof (cases "py_format tpl (map brace names)")
    case (Inl e)
    then show ?thesis by (rule that)
  next
    case (Inr out)
    from py_format_slots [OF this] assms(4) show ?thesis by simp
  qed
  have kind: "e = TypeError \<or> e = ValueError" using e by (rule py_format_error)
  have t: "tornadopath2openapi u m = Inl e"
    using e assms(3) by (simp add: tornadopath2openapi_args [OF assms(1,2)] py_mod_def)
  show ?thesis
  proof (intro exI conjI impI)
    show "e = TypeError \<or> e = ValueError" by (rule kind)
    show "py_format tpl (map brace names) = Inl e" by (rule e)
    show "tornadopath2openapi u m = Inl e" by (rule t)
  next
    assume c: "ops \<noteq> [] \<and> coerce_urlspec URLSpec arg = Inr u
        \<and> operations_from_methods PATH_KEYS load_yaml (handler_class u) = (ys, None)
        \<and> getattr (handler_class u) (fst (hd (merge_operations ops ys))) = Inr m
        \<and> extensions_from_handler load_yaml (handler_class u) = Inr ext"
    from c have c1: "ops \<noteq> []" by (rule conjunct1)
    from c have c2: "coerce_urlspec URLSpec arg = Inr u"
      by (rule conjunct2 [THEN conjunct1])
    from c have c3: "operations_from_methods PATH_KEYS load_yaml (handler_class u) = (ys, None)"
      by (rule conjunct2 [THEN conjunct2, THEN conjunct1])
    from c have c4: "getattr (handler_class u) (fst (hd (merge_operations ops ys))) = Inr m"
      by (rule conjunct2 [THEN conjunct2, THEN conjunct2, THEN conjunct1])
    from c have c5: "extensions_from_handler load_yaml (handler_class u) = Inr ext"
      by (rule conjunct2 [THEN conjunct2, THEN conjunct2, THEN conjunct2])
    have "path_helper PATH_KEYS load_yaml URLSpec (Some ops) arg =
           (Some (dict_update (merge_operations ops ys) ext), tornadopath2openapi u m)"
      using c1 c2 c3 c4 c5 by (rule path_helper_reaches)
    then show "snd (path_helper PATH_KEYS load_yaml URLSpec (Some ops) arg) = Inl e"
      by (simp add: t)
  qed
qed

text \<open>
  One unnamed group and a method declared \<open>(self, *args, **kwargs)\<close>: one slot, two
  names. Two unnamed groups and a method declared \<open>(self, user_id)\<close>: two slots, one
  name.
\<close>

theorem tornadopath2openapi_slot_mismatch_example:
  "n_slots ''/items/%s'' = 1
   \<and> path_args item_spec undocumented = Inr [''args'', ''kwargs'']
   \<and> tornadopath2openapi item_spec undocumented = Inl TypeError
   \<and> snd (path_helper example_PATH_KEYS example_load no_URLSpec (Some [(''get'', YNull)])
           (URLSpecObj item_spec)) = Inl TypeError
   \<and> n_slots ''/users/%s/posts/%s'' = 2
   \<and> path_args users_spec user_method = Inr [''user_id'']
   \<and> tornadopath2openapi users_spec user_method = Inl TypeError"
proof -
  have n: "n_slots ''/items/%s'' = 1" by (simp add: parse_spec_s)
  have pa: "path_args item_spec undocumented = Inr [''args'', ''kwargs'']"
    by (simp add: path_args_def item_spec_def undocumented_def)
  have g: "regex_groups item_spec \<noteq> 0" by (simp add: item_spec_def)
  have tp: "path_tpl item_spec = Some ''/items/%s''" by (simp add: item_spec_def)
  have neq: "n_slots ''/items/%s'' \<noteq> length [''args'', ''kwargs'']"
    by (simp add: parse_spec_s)
  have f: "py_format ''/items/%s'' (map brace [''args'', ''kwargs'']) = Inl TypeError"
    by (simp add: brace_def parse_spec_s convert_s)
  have ys: "operations_from_methods example_PATH_KEYS example_load (handler_class item_spec)
     = ([], None)"
    by (simp add: item_spec_def example_PATH_KEYS_def plain_handler_def
          getattr_def example_load_def undocumented_def)
  have ga: "getattr (handler_class item_spec)
      (fst (hd (merge_operations [(''get'', YNull)] []))) = Inr undocumented"
    by (simp add: item_spec_def plain_handler_def getattr_def merge_operations_def)
  have ex: "extensions_from_handler example_load (handler_class item_spec)
      = Inr (example_load (Some ''A handler''))"
    by (simp add: extensions_from_handler_def item_spec_def plain_handler_def)
  have co: "coerce_urlspec no_URLSpec (URLSpecObj item_spec) = Inr item_spec"
    by (simp add: coerce_urlspec_def)
  have ne: "[(''get'', YNull)] \<noteq> []" by simp
  from tornadopath2openapi_slot_mismatch [OF g pa tp neq,
      where ops = "[(''get'', YNull)]" and URLSpec = no_URLSpec
        and arg = "URLSpecObj item_spec" and PATH_KEYS = example_PATH_KEYS
        and load_yaml = example_load and ys = "[]"
        and ext = "example_load (Some ''A handler'')"]
  obtain e where e: "py_format ''/items/%s'' (map brace [''args'', ''kwargs'']) = Inl e"
    and t: "tornadopath2openapi item_spec undocumented = Inl e"
    and p: "[(''get'', YNull)] \<noteq> [] \<and> coerce_urlspec no_URLSpec (URLSpecObj item_spec)
                = Inr item_spec
            \<and> operations_from_methods example_PATH_KEYS example_load
                 (handler_class item_spec) = ([], None)
            \<and> getattr (handler_class item_spec)
                 (fst (hd (merge_operations [(''get'', YNull)] []))) = Inr undocumented
            \<and> extensions_from_handler example_load (handler_class item_spec)
                 = Inr (example_load (Some ''A handler'')) \<longrightarrow>
            snd (path_helper example_PATH_KEYS example_load no_URLSpec
                   (Some [(''get'', YNull)]) (URLSpecObj item_spec)) = Inl e"
    by (elim exE conjE)
  from e f have et: "e = TypeError" by simp
  have ph: "snd (path_helper example_PATH_KEYS example_load no_URLSpec
      (Some [(''get'', YNull)]) (URLSpecObj item_spec)) = Inl e"
    by (rule p [THEN mp]) (intro conjI ne co ys ga ex)
  have n2: "n_slots ''/users/%s/posts/%s'' = 2" by (simp add: parse_spec_s)
  have pa2: "path_args users_spec user_method = Inr [''user_id'']"
    by (simp add: path_args_def users_spec_def user_method_def)
  have g2: "regex_groups users_spec \<noteq> 0" by (simp add: users_spec_def)
  have tp2: "path_tpl users_spec = Some ''/users/%s/posts/%s''" by (simp add: users_spec_def)
  have neq2: "n_slots ''/users/%s/posts/%s'' \<noteq> length [''user_id'']"
    by (simp add: parse_spec_s)
  have f2: "py_format ''/users/%s/posts/%s'' (map brace [''user_id'']) = Inl TypeError"
    by (simp add: brace_def parse_spec_s convert_s)
  from tornadopath2openapi_slot_mismatch [OF g2 pa2 tp2 neq2,
      where ops = "[(''get'', YNull)]" and URLSpec = no_URLSpec
        and arg = "URLSpecObj users_spec" and PATH_KEYS = example_PATH_KEYS
        and load_yaml = example_load and ys = "[]"
        and ext = "example_load (Some ''A handler'')"]
  obtain e2 where e2: "py_format ''/users/%s/posts/%s'' (map brace [''user_id'']) = Inl e2"
    and t2: "tornadopath2openapi users_spec user_method = Inl e2"
    by (elim exE conjE)
  from e2 f2 have et2: "e2 = TypeError" by simp
  from n pa t ph n2 pa2 t2 show ?thesis unfolding et et2 by (intro conjI)
qed

text \<open>
  C10. With named groups, or with no capturing group, the result of the path
  normalizer is the same for any two methods; so two calls of the entry point on the
  same route that both return a path return the same one, whatever their
  \<open>operations\<close> are. The normalizer takes the route and one method and nothing else.
\<close>

theorem tornadopath2openapi_method_only_fallback:
  assumes "regex_groups u = 0 \<or> regex_groupindex u \<noteq> []"
  shows "tornadopath2openapi u m1 = tornadopath2openapi u m2
         \<and> (coerce_urlspec URLSpec arg = Inr u
               \<and> path_helper PATH_KEYS load_yaml URLSpec ops1 arg = (r1, Inr p1)
               \<and> path_helper PATH_KEYS load_yaml URLSpec ops2 arg = (r2, Inr p2) \<longrightarrow>
             p1 = p2)"
proof -
  have same: "tornadopath2openapi u m = tornadopath2openapi u m'" for m m'
    using assms by (auto simp: tornadopath2openapi_def render_path_def path_args_def)
  show ?thesis
  proof (intro conjI impI)
    show "tornadopath2openapi u m1 = tornadopath2openapi u m2" by (rule same)
  next
    assume c: "coerce_urlspec URLSpec arg = Inr u
               \<and> path_helper PATH_KEYS load_yaml URLSpec ops1 arg = (r1, Inr p1)
               \<and> path_helper PATH_KEYS load_yaml URLSpec ops2 arg = (r2, Inr p2)"
    from c have co: "coerce_urlspec URLSpec arg = Inr u" by (rule conjunct1)
    from c have a: "path_helper PATH_KEYS load_yaml URLSpec ops1 arg = (r1, Inr p1)"
      by (rule conjunct2 [THEN conjunct1])
    from c have b: "path_helper PATH_KEYS load_yaml URLSpec ops2 arg = (r2, Inr p2)"
      by (rule conjunct2 [THEN conjunct2])
    from path_helper_Inr [OF a] co obtain m where ma: "tornadopath2openapi u m = Inr p1"
      by auto
    from path_helper_Inr [OF b] co obtain m' where mb: "tornadopath2openapi u m' = Inr p2"
      by auto
    from ma mb same [of m m'] show "p1 = p2" by simp
  qed
qed

theorem tornadopath2openapi_method_only_fallback_example:
  "regex_groupindex (items_spec [(''id'', 2), (''name'', 1)]) \<noteq> []
   \<and> tornadopath2openapi (items_spec [(''id'', 2), (''name'', 1)]) undocumented
     = tornadopath2openapi (items_spec [(''id'', 2), (''name'', 1)]) user_post_method"
proof -
  have ne: "regex_groupindex (items_spec [(''id'', 2), (''name'', 1)]) \<noteq> []"
    by (simp add: items_spec_def)
  then have h: "regex_groups (items_spec [(''id'', 2), (''name'', 1)]) = 0
      \<or> regex_groupindex (items_spec [(''id'', 2), (''name'', 1)]) \<noteq> []" ..
  have "tornadopath2openapi (items_spec [(''id'', 2), (''name'', 1)]) undocumented
     = tornadopath2openapi (items_spec [(''id'', 2), (''name'', 1)]) user_post_method"
    by (rule tornadopath2openapi_method_only_fallback
          [OF h, of undocumented user_post_method, THEN conjunct1])
  with ne show ?thesis by (rule conjI)
qed

end
